theory Spec2Isabelle
  imports Main
begin

section \<open>Module constants of update\_netbox.py\<close>

text \<open>
  Python strings are modelled as \<open>string\<close>, one \<open>char\<close> per code point; the model
  therefore covers device names over the code points 0 to 255. Dictionaries written as
  literals are association lists in source order, and \<open>d.get(k)\<close> is \<open>map_of d k\<close>.
  Calls to the logger have no effect on any result and are left out.
\<close>

definition NETBOX_TAGS :: "string list" where
  "NETBOX_TAGS =
     [''access-switch'', ''core-router'', ''distribution-switch'', ''edge-router'',
      ''primary'', ''secondary'', ''active'', ''standby'']"

definition HOSTNAME_ROLE_MAP :: "(string \<times> string) list" where
  "HOSTNAME_ROLE_MAP =
     [(''O'', ''wan-accelerator''),
      (''R'', ''router''),
      (''S'', ''switch''),
      (''V'', ''voice-gateway''),
      (''W'', ''wireless-controller'')]"

definition HOSTNAME_SUBROLE_MAP :: "(string \<times> string) list" where
  "HOSTNAME_SUBROLE_MAP =
     [(''AC'', ''access-switch''),
      (''CR'', ''core-router''),
      (''DS'', ''distribution-switch''),
      (''ER'', ''edge-router''),
      (''LB'', ''load-balancer''),
      (''SS'', ''server-switch''),
      (''TS'', ''console-server''),
      (''VG'', ''voice-gateway''),
      (''WA'', ''wan-router''),
      (''WC'', ''wireless-controller''),
      (''WO'', ''wan-accelerator'')]"

definition HOSTNAME_STATUS_MAP :: "(string \<times> string) list" where
  "HOSTNAME_STATUS_MAP =
     [(''ACT'', ''active''),
      (''STB'', ''standby''),
      (''OLD'', ''legacy'')]"

definition PLATFORM_TAG_MAP :: "(string \<times> string) list" where
  "PLATFORM_TAG_MAP =
     [(''Network-Arista'', ''eos''),
      (''Network-IOS'', ''ios''),
      (''Network-IOS-XE'', ''ios''),
      (''Network-Juniper'', ''junos''),
      (''Network-NXOS'', ''nxos''),
      (''Network-Riverbed'', ''rios''),
      (''Network-WLC'', ''aireos'')]"

section \<open>Data model\<close>

text \<open>The exceptions the modelled functions can raise.\<close>

datatype error = ValueError | IndexError | NameError

text \<open>A platform record of the inventory, and the nested platform of a device.\<close>

record platform =
  platform_id :: int
  slug :: string

text \<open>
  A device as the inventory returns it: \<open>device["name"]\<close>, \<open>device["tags"]\<close> (a list of
  tag names), \<open>device["platform"]\<close> (a nested record or None), \<open>device["id"]\<close> and
  \<open>device["device_type"]["model"]\<close>.
\<close>

record device =
  name :: string
  tags :: "string list"
  platform :: "platform option"
  device_id :: int
  model :: string

text \<open>
  The dictionary \<open>parsed_props\<close>: its six keys always exist, each value is None until
  the hostname has matched.
\<close>

record parsed_props =
  role :: "string option"
  site :: "string option"
  floor :: "int option"
  subrole :: "string option"
  index :: "int option"
  status :: "string option"

text \<open>A device after \<open>device.update({"parsed_props": parsed_props})\<close>.\<close>

record parsed_device = device +
  parsed_props :: parsed_props

text \<open>The values of the dictionary are strings, integers or None.\<close>

datatype pyval = PNone | PStr string | PInt int

definition str_prop :: "string option \<Rightarrow> pyval" where
  "str_prop v = (case v of None \<Rightarrow> PNone | Some s \<Rightarrow> PStr s)"

definition int_prop :: "int option \<Rightarrow> pyval" where
  "int_prop v = (case v of None \<Rightarrow> PNone | Some i \<Rightarrow> PInt i)"

text \<open>\<open>parsed_props.values()\<close>, in the insertion order of the keys.\<close>

definition props_values :: "parsed_props \<Rightarrow> pyval list" where
  "props_values p =
     [str_prop (role p), str_prop (site p), int_prop (floor p),
      str_prop (subrole p), int_prop (index p), str_prop (status p)]"

section \<open>The hostname pattern\<close>

text \<open>
  \<^verbatim>\<open>^(?P<role>\w{1})(?P<site>\w{3})(?P<floor>\d{2})(?P<subrole>\w{2})(?P<index>\d{2})\-?(?P<status>ACT|STB|OLD)?.*$\<close>

  The pattern is a \<open>str\<close> pattern compiled without flags. \<open>\d\<close> is a decimal digit and
  \<open>\w\<close> an alphanumeric character or the underscore; on the code points 0 to 255 these
  are the sets below. \<open>.\<close> is any character but the newline, and \<open>$\<close> holds at the end of
  the string and just before a newline that ends the string.
\<close>

definition is_digit :: "char \<Rightarrow> bool" where
  "is_digit c = (let n = (of_char c :: nat) in 48 \<le> n \<and> n \<le> 57)"

definition is_word :: "char \<Rightarrow> bool" where
  "is_word c =
     (let n = (of_char c :: nat) in
        (48 \<le> n \<and> n \<le> 57) \<or> (65 \<le> n \<and> n \<le> 90) \<or> n = 95 \<or> (97 \<le> n \<and> n \<le> 122) \<or>
        n = 170 \<or> n = 178 \<or> n = 179 \<or> n = 181 \<or> n = 185 \<or> n = 186 \<or>
        (188 \<le> n \<and> n \<le> 190) \<or> (192 \<le> n \<and> n \<le> 214) \<or> (216 \<le> n \<and> n \<le> 246) \<or>
        (248 \<le> n \<and> n \<le> 255))"

text \<open>The named groups of a match; only \<open>status\<close> can be unset.\<close>

record hostname_groups =
  group_role :: string
  group_site :: string
  group_floor :: string
  group_subrole :: string
  group_index :: string
  group_status :: "string option"

text \<open>
  A counted class \<open>\w{n}\<close> or \<open>\d{n}\<close>: exactly \<open>n\<close> characters of the class, or no match.
  The result is the text consumed and the rest of the subject.
\<close>

definition take_class :: "(char \<Rightarrow> bool) \<Rightarrow> nat \<Rightarrow> string \<Rightarrow> (string \<times> string) option" where
  "take_class P n s =
     (if n \<le> length s \<and> list_all P (take n s) then Some (take n s, drop n s) else None)"

text \<open>
  The greedy optional \<open>\-?\<close>: the positions from which the engine continues, in the order
  it tries them (the dash consumed first, then the dash left in place).
\<close>

definition opt_dash :: "string \<Rightarrow> string list" where
  "opt_dash s =
     (case s of
        [] \<Rightarrow> [s]
      | c # r \<Rightarrow> if c = CHR ''-'' then [r, s] else [s])"

text \<open>
  The greedy optional group \<open>(?P<status>ACT|STB|OLD)?\<close>: each alternative in order, then
  the empty match, which leaves the group unset.
\<close>

definition opt_status :: "string \<Rightarrow> (string option \<times> string) list" where
  "opt_status s =
     concat (map (\<lambda>a. if take 3 s = a then [(Some a, drop 3 s)] else []) [''ACT'', ''STB'', ''OLD''])
     @ [(None, s)]"

text \<open>
  \<open>.*$\<close>: the star runs up to the first newline or the end; \<open>$\<close> then needs the end of the
  string or one last newline. Giving characters back cannot help, since every earlier
  position is followed by a character that is not a newline.
\<close>

definition dot_star_end :: "string \<Rightarrow> bool" where
  "dot_star_end s =
     (let r = dropWhile (\<lambda>c. c \<noteq> CHR 0x0A) s in r = [] \<or> r = [CHR 0x0A])"

text \<open>
  The tail of the pattern after the ten fixed characters, by backtracking: the first
  combination of the two optional parts after which \<open>.*$\<close> succeeds gives the status group.
\<close>

definition match_tail :: "string \<Rightarrow> string option option" where
  "match_tail s =
     (case concat (map (\<lambda>r. concat (map (\<lambda>(st, r'). if dot_star_end r' then [st] else [])
                                        (opt_status r)))
                       (opt_dash s)) of
        [] \<Rightarrow> None
      | st # _ \<Rightarrow> Some st)"

text \<open>
  \<open>pattern.search(s)\<close>: without the MULTILINE flag \<open>^\<close> holds at position 0 only, so the
  search can succeed at the start of the string and nowhere else.
\<close>

definition HOSTNAME_PATTERN_search :: "string \<Rightarrow> hostname_groups option" where
  "HOSTNAME_PATTERN_search s =
     (case take_class is_word 1 s of None \<Rightarrow> None | Some (g_role, s1) \<Rightarrow>
      case take_class is_word 3 s1 of None \<Rightarrow> None | Some (g_site, s2) \<Rightarrow>
      case take_class is_digit 2 s2 of None \<Rightarrow> None | Some (g_floor, s3) \<Rightarrow>
      case take_class is_word 2 s3 of None \<Rightarrow> None | Some (g_subrole, s4) \<Rightarrow>
      case take_class is_digit 2 s4 of None \<Rightarrow> None | Some (g_index, s5) \<Rightarrow>
      case match_tail s5 of None \<Rightarrow> None | Some g_status \<Rightarrow>
        Some \<lparr>group_role = g_role, group_site = g_site, group_floor = g_floor,
              group_subrole = g_subrole, group_index = g_index, group_status = g_status\<rparr>)"

section \<open>parse\_hostname\<close>

text \<open>
  \<open>int(s)\<close> on a string of decimal digits. Every other string is taken to the ValueError
  branch (Python also accepts surrounding blanks, a sign and single underscores between
  digits; a \<open>\d{2}\<close> group holds none of these).
\<close>

definition digit_val :: "char \<Rightarrow> int" where
  "digit_val c = int (of_char c) - 48"

definition py_int :: "string \<Rightarrow> error + int" where
  "py_int s =
     (if s \<noteq> [] \<and> list_all is_digit s
      then Inr (foldl (\<lambda>a c. 10 * a + digit_val c) 0 s)
      else Inl ValueError)"

text \<open>
  \<open>TABLE.get(code) or code\<close>: the table's value when the code is a key and the value is
  not the empty string, the code itself otherwise.
\<close>

definition get_or :: "(string \<times> string) list \<Rightarrow> string \<Rightarrow> string" where
  "get_or tbl code =
     (case map_of tbl code of
        None \<Rightarrow> code
      | Some v \<Rightarrow> if v \<noteq> [] then v else code)"

text \<open>The same for the status group, which is None when the group did not take part.\<close>

definition get_or_opt :: "(string \<times> string) list \<Rightarrow> string option \<Rightarrow> string option" where
  "get_or_opt tbl code =
     (case code of
        None \<Rightarrow> None
      | Some c \<Rightarrow> Some (get_or tbl c))"

definition no_props :: parsed_props where
  "no_props = \<lparr>role = None, site = None, floor = None, subrole = None, index = None,
               status = None\<rparr>"

definition attach :: "device \<Rightarrow> parsed_props \<Rightarrow> parsed_device" where
  "attach d p = device.extend d (parsed_device.fields p)"

definition parse_hostname :: "device \<Rightarrow> error + parsed_device" where
  "parse_hostname d =
     (case HOSTNAME_PATTERN_search (name d) of
        None \<Rightarrow> Inr (attach d no_props)
      | Some g \<Rightarrow>
          (case py_int (group_floor g) of
             Inl e \<Rightarrow> Inl e
           | Inr fl \<Rightarrow>
               (case py_int (group_index g) of
                  Inl e \<Rightarrow> Inl e
                | Inr ix \<Rightarrow>
                    Inr (attach d
                      \<lparr>role = Some (get_or HOSTNAME_ROLE_MAP (group_role g)),
                       site = Some (group_site g),
                       floor = Some fl,
                       subrole = Some (get_or HOSTNAME_SUBROLE_MAP (group_subrole g)),
                       index = Some ix,
                       status = get_or_opt HOSTNAME_STATUS_MAP (group_status g)\<rparr>))))"

section \<open>get\_stp\_root\<close>

definition get_devices_with_subrole :: "parsed_device list \<Rightarrow> string \<Rightarrow> parsed_device list" where
  "get_devices_with_subrole devices sr =
     filter (\<lambda>x. subrole (parsed_props x) = Some sr) devices"

record stp_root =
  primary :: "parsed_device option"
  secondary :: "parsed_device option"

text \<open>The body of either \<open>for\<close> loop: the two tests are independent \<open>if\<close> statements.\<close>

definition scan_step :: "stp_root \<Rightarrow> parsed_device \<Rightarrow> stp_root" where
  "scan_step result switch =
     (let r1 = (if index (parsed_props switch) = Some 1
                then result\<lparr>primary := Some switch\<rparr> else result)
      in if index (parsed_props switch) = Some 2
         then r1\<lparr>secondary := Some switch\<rparr> else r1)"

definition get_stp_root :: "parsed_device list \<Rightarrow> stp_root" where
  "get_stp_root devices =
     (let result = \<lparr>primary = None, secondary = None\<rparr>;
          distribution_switches = get_devices_with_subrole devices ''distribution-switch''
      in if distribution_switches \<noteq> []
         then foldl scan_step result distribution_switches
         else foldl scan_step result (get_devices_with_subrole devices ''core-router''))"

section \<open>get\_device\_tags\<close>

text \<open>\<open>prop in NETBOX_TAGS\<close>: None and integers equal no string.\<close>

definition in_tags :: "pyval \<Rightarrow> string list \<Rightarrow> bool" where
  "in_tags v ts = (case v of PStr s \<Rightarrow> s \<in> set ts | _ \<Rightarrow> False)"

text \<open>
  The first loop. \<open>device["parsed_props"]\<close> is a dictionary of six keys and so always
  true as a condition.
\<close>

definition parsed_tags :: "parsed_device \<Rightarrow> string list" where
  "parsed_tags d =
     concat (map (\<lambda>v. case v of PStr s \<Rightarrow> (if in_tags v NETBOX_TAGS then [s] else []) | _ \<Rightarrow> [])
                 (props_values (parsed_props d)))"

text \<open>\<open>needle in hay\<close> on strings: the needle starts at some position of the hay.\<close>

fun str_contains :: "string \<Rightarrow> string \<Rightarrow> bool" where
  "str_contains needle [] = (needle = [])"
| "str_contains needle (c # cs) =
     (take (length needle) (c # cs) = needle \<or> str_contains needle cs)"

definition primary_secondary :: "parsed_device \<Rightarrow> string list \<Rightarrow> string list" where
  "primary_secondary d device_tags =
     (if ''distribution-switch'' \<in> set device_tags \<or> ''core-router'' \<in> set device_tags
      then device_tags
           @ (if index (parsed_props d) = Some 1 then [''primary''] else [])
           @ (if index (parsed_props d) = Some 2 then [''secondary''] else [])
      else device_tags)"

definition dual_purpose :: "parsed_device \<Rightarrow> string list \<Rightarrow> string list" where
  "dual_purpose d device_tags =
     (if ''core-router'' \<in> set device_tags
      then (if str_contains ''3850'' (model d) \<or> str_contains ''3750'' (model d)
            then device_tags @ [''access-switch''] else device_tags)
      else device_tags)"

text \<open>
  The result \<open>list(set(device_tags))\<close> has no duplicates and no specified order; it is
  modelled as the set of its elements.
\<close>

definition get_device_tags :: "parsed_device \<Rightarrow> string set" where
  "get_device_tags d = set (dual_purpose d (primary_secondary d (parsed_tags d)))"

section \<open>update\_device\_tags\<close>

text \<open>
  The keyword arguments of \<open>netbox.dcim.update_device\<close>; the list \<open>update_tags\<close> is
  built by iterating over the derived tags, so it is given as a set as well.
\<close>

record update_device_call =
  device_name :: string
  tags_arg :: "string set"

text \<open>The call the function makes, if it makes one.\<close>

definition update_device_tags :: "parsed_device \<Rightarrow> update_device_call option" where
  "update_device_tags d =
     (let device_tags = get_device_tags d
      in if device_tags \<noteq> {}
         then Some \<lparr>device_name = name d,
                    tags_arg = Set.filter (\<lambda>tag. tag \<notin> set (tags d)) device_tags\<rparr>
         else None)"

definition tags_to_add :: "parsed_device \<Rightarrow> string set" where
  "tags_to_add d = (case update_device_tags d of None \<Rightarrow> {} | Some c \<Rightarrow> tags_arg c)"

text \<open>
  Modelled from the spec: the effect of the inventory client's \<open>update_device\<close> on the
  stored tags of a device. The client is an imported library and not part of the
  repository; section 4.4 of the specification reads the submitted list as the set of tags
  to add to the current ones.
\<close>

definition apply_update :: "string set \<Rightarrow> update_device_call option \<Rightarrow> string set" where
  "apply_update current c =
     (case c of None \<Rightarrow> current | Some u \<Rightarrow> current \<union> tags_arg u)"

section \<open>verify\_platform\<close>

text \<open>
  \<open>get_platform_id\<close> reads the module-level name \<open>platforms\<close>, which the module itself
  never binds (\<open>main\<close> assigns a local of that name). The binding is therefore a
  parameter: None when the name is unbound, which raises NameError at the loop. A slug
  that no platform has makes the function fall off its end and return None.
\<close>

definition get_platform_id :: "platform list option \<Rightarrow> string \<Rightarrow> error + int option" where
  "get_platform_id platforms platform_slug =
     (case platforms of
        None \<Rightarrow> Inl NameError
      | Some ps \<Rightarrow> Inr (map_option platform_id (find (\<lambda>p. slug p = platform_slug) ps)))"

text \<open>What \<open>verify_platform\<close> does to the inventory when it does not raise.\<close>

datatype platform_action =
  Already_Set
| Update_Device_By_Id int "int option"
| No_Platform_Mapped

definition verify_platform :: "platform list option \<Rightarrow> 'a device_scheme \<Rightarrow> error + platform_action" where
  "verify_platform platforms d =
     (case platform d of
        Some p \<Rightarrow> Inr Already_Set
      | None \<Rightarrow>
          (case tags d of
             [] \<Rightarrow> Inl IndexError
           | tag # _ \<Rightarrow>
               (case map_of PLATFORM_TAG_MAP tag of
                  None \<Rightarrow> Inr No_Platform_Mapped
                | Some platform_slug \<Rightarrow>
                    if platform_slug \<noteq> []
                    then (case get_platform_id platforms platform_slug of
                            Inl e \<Rightarrow> Inl e
                          | Inr pid \<Rightarrow> Inr (Update_Device_By_Id (device_id d) pid))
                    else Inr No_Platform_Mapped)))"

section \<open>Reference definitions taken from the specification\<close>

text \<open>
  The repository has no encoder. The re-encoding of the round-trip property inverts a
  lookup table, label to code, and keeps a value that no table entry produces as it is.
\<close>

definition reencode :: "(string \<times> string) list \<Rightarrow> string \<Rightarrow> string" where
  "reencode tbl v =
     (case map_of (map (\<lambda>(code, label). (label, code)) tbl) v of
        None \<Rightarrow> v
      | Some code \<Rightarrow> code)"

text \<open>The long-form labels: every value a lookup table can produce.\<close>

definition long_form_labels :: "string list" where
  "long_form_labels =
     map snd HOSTNAME_ROLE_MAP @ map snd HOSTNAME_SUBROLE_MAP @ map snd HOSTNAME_STATUS_MAP"

text \<open>
  The root-bridge selection as the specification words it: the last device of a group
  with a given parsed index, the group being the distribution switches when there are
  any and the core routers otherwise.
\<close>

definition last_with_index :: "parsed_device list \<Rightarrow> int \<Rightarrow> parsed_device option" where
  "last_with_index grp i =
     (let hits = filter (\<lambda>x. index (parsed_props x) = Some i) grp
      in if hits = [] then None else Some (last hits))"

definition chosen_group :: "parsed_device list \<Rightarrow> parsed_device list" where
  "chosen_group devices =
     (if filter (\<lambda>x. subrole (parsed_props x) = Some ''distribution-switch'') devices \<noteq> []
      then filter (\<lambda>x. subrole (parsed_props x) = Some ''distribution-switch'') devices
      else filter (\<lambda>x. subrole (parsed_props x) = Some ''core-router'') devices)"

definition selectStpRoots :: "parsed_device list \<Rightarrow> stp_root" where
  "selectStpRoots devices =
     \<lparr>primary = last_with_index (chosen_group devices) 1,
      secondary = last_with_index (chosen_group devices) 2\<rparr>"

section \<open>Facts about the pattern\<close>

lemmas pattern_defs =
  HOSTNAME_PATTERN_search_def take_class_def is_word_def is_digit_def match_tail_def
  opt_dash_def opt_status_def dot_star_end_def

lemmas parse_defs =
  parse_hostname_def py_int_def digit_val_def get_or_def get_or_opt_def no_props_def
  HOSTNAME_ROLE_MAP_def HOSTNAME_SUBROLE_MAP_def HOSTNAME_STATUS_MAP_def

lemma take_class_Some:
  assumes "take_class P n s = Some (a, r)"
  shows "length a = n" and "list_all P a" and "s = a @ r"
  using assms by (auto simp: take_class_def split: if_splits)

lemma opt_status_range:
  "(st, r) \<in> set (opt_status s) \<Longrightarrow> st \<in> {None, Some ''ACT'', Some ''STB'', Some ''OLD''}"
  by (auto simp: opt_status_def split: if_splits)

lemma match_tail_range:
  assumes "match_tail s = Some st"
  shows "st \<in> {None, Some ''ACT'', Some ''STB'', Some ''OLD''}"
proof -
  let ?cands = "concat (map (\<lambda>r. concat (map (\<lambda>(st, r'). if dot_star_end r' then [st] else [])
                                        (opt_status r))) (opt_dash s))"
  from assms obtain rest where "?cands = st # rest"
    by (auto simp: match_tail_def split: list.splits)
  then have "st \<in> set ?cands" by simp
  then obtain r r' where "(st, r') \<in> set (opt_status r)"
    by (auto split: if_splits)
  then show ?thesis by (rule opt_status_range)
qed

text \<open>What a match says about its groups: the widths and classes the pattern fixes.\<close>

lemma search_groups:
  assumes "HOSTNAME_PATTERN_search s = Some g"
  shows "length (group_role g) = 1" and "list_all is_word (group_role g)"
    and "length (group_site g) = 3" and "list_all is_word (group_site g)"
    and "length (group_floor g) = 2" and "list_all is_digit (group_floor g)"
    and "length (group_subrole g) = 2" and "list_all is_word (group_subrole g)"
    and "length (group_index g) = 2" and "list_all is_digit (group_index g)"
    and "group_status g \<in> {None, Some ''ACT'', Some ''STB'', Some ''OLD''}"
  using assms
  by (auto simp: HOSTNAME_PATTERN_search_def split: option.splits prod.splits
           dest: take_class_Some match_tail_range)

lemma search_short:
  assumes "length s < 10"
  shows "HOSTNAME_PATTERN_search s = None"
proof (rule ccontr)
  assume "HOSTNAME_PATTERN_search s \<noteq> None"
  then obtain g where g: "HOSTNAME_PATTERN_search s = Some g" by auto
  then obtain a1 s1 a2 s2 a3 s3 a4 s4 a5 s5 where
    t: "take_class is_word 1 s = Some (a1, s1)" "take_class is_word 3 s1 = Some (a2, s2)"
       "take_class is_digit 2 s2 = Some (a3, s3)" "take_class is_word 2 s3 = Some (a4, s4)"
       "take_class is_digit 2 s4 = Some (a5, s5)"
    by (auto simp: HOSTNAME_PATTERN_search_def split: option.splits prod.splits)
  have "s = a1 @ a2 @ a3 @ a4 @ a5 @ s5"
    using t by (auto dest!: take_class_Some(3))
  moreover have "length a1 = 1" "length a2 = 3" "length a3 = 2" "length a4 = 2" "length a5 = 2"
    using t by (auto dest: take_class_Some(1))
  ultimately have "10 \<le> length s" by simp
  with assms show False by simp
qed

lemma search_py_int:
  assumes "HOSTNAME_PATTERN_search s = Some g"
  shows "\<exists>fl ix. py_int (group_floor g) = Inr fl \<and> py_int (group_index g) = Inr ix"
proof -
  have "group_floor g \<noteq> []" "group_index g \<noteq> []"
    using search_groups(5,9)[OF assms] by auto
  then show ?thesis
    using search_groups(6,10)[OF assms] by (simp add: py_int_def)
qed

section \<open>Facts about parse\_hostname\<close>

lemma attach_simps [simp]:
  "parsed_props (attach d p) = p"
  "name (attach d p) = name d"
  "tags (attach d p) = tags d"
  "platform (attach d p) = platform d"
  "device_id (attach d p) = device_id d"
  "model (attach d p) = model d"
  by (simp_all add: attach_def device.extend_def parsed_device.fields_def)

lemma parse_hostname_nomatch:
  "HOSTNAME_PATTERN_search (name d) = None \<Longrightarrow> parse_hostname d = Inr (attach d no_props)"
  by (simp add: parse_hostname_def)

lemma parse_hostname_match:
  assumes "HOSTNAME_PATTERN_search (name d) = Some g"
  shows "\<exists>fl ix. py_int (group_floor g) = Inr fl \<and> py_int (group_index g) = Inr ix \<and>
           parse_hostname d = Inr (attach d
             \<lparr>role = Some (get_or HOSTNAME_ROLE_MAP (group_role g)),
              site = Some (group_site g),
              floor = Some fl,
              subrole = Some (get_or HOSTNAME_SUBROLE_MAP (group_subrole g)),
              index = Some ix,
              status = get_or_opt HOSTNAME_STATUS_MAP (group_status g)\<rparr>)"
  using search_py_int[OF assms] assms by (auto simp: parse_hostname_def)

text \<open>
  C4: for every device name, either the pattern matches and the parsed record has role,
  site, floor, subrole and index all set, with status set exactly when the status group
  took part in the match, or the pattern does not match and the parsed record is the
  all-None record. No other outcome exists.
\<close>

theorem parse_all_or_nothing:
  "(\<exists>g p. HOSTNAME_PATTERN_search (name d) = Some g \<and> parse_hostname d = Inr p \<and>
          role (parsed_props p) \<noteq> None \<and> site (parsed_props p) \<noteq> None \<and>
          floor (parsed_props p) \<noteq> None \<and> subrole (parsed_props p) \<noteq> None \<and>
          index (parsed_props p) \<noteq> None \<and>
          (status (parsed_props p) \<noteq> None \<longleftrightarrow> group_status g \<noteq> None))
   \<or> (HOSTNAME_PATTERN_search (name d) = None \<and>
       (\<exists>p. parse_hostname d = Inr p \<and> parsed_props p = no_props))"
proof (cases "HOSTNAME_PATTERN_search (name d)")
  case None
  then show ?thesis using parse_hostname_nomatch[OF None] by simp
next
  case (Some g)
  from parse_hostname_match[OF Some] obtain fl ix where
    "parse_hostname d = Inr (attach d
             \<lparr>role = Some (get_or HOSTNAME_ROLE_MAP (group_role g)),
              site = Some (group_site g),
              floor = Some fl,
              subrole = Some (get_or HOSTNAME_SUBROLE_MAP (group_subrole g)),
              index = Some ix,
              status = get_or_opt HOSTNAME_STATUS_MAP (group_status g)\<rparr>)"
    by blast
  then show ?thesis using Some
    by (auto simp: get_or_opt_def split: option.splits)
qed

theorem parse_all_or_nothing_witness:
  "(\<exists>p. parse_hostname \<lparr>name = ''RFUL01AC02'', tags = [], platform = None, device_id = 7,
                         model = ''WS-C3850''\<rparr> = Inr p \<and>
        role (parsed_props p) \<noteq> None \<and> site (parsed_props p) \<noteq> None \<and>
        floor (parsed_props p) \<noteq> None \<and> subrole (parsed_props p) \<noteq> None \<and>
        index (parsed_props p) \<noteq> None \<and> status (parsed_props p) = None)
   \<and> (\<exists>p. parse_hostname \<lparr>name = ''core-sw1'', tags = [], platform = None, device_id = 8,
                           model = ''WS-C3850''\<rparr> = Inr p \<and> parsed_props p = no_props)"
proof -
  have m: "HOSTNAME_PATTERN_search ''RFUL01AC02'' =
             Some \<lparr>group_role = ''R'', group_site = ''FUL'', group_floor = ''01'',
                   group_subrole = ''AC'', group_index = ''02'', group_status = None\<rparr>"
    by (simp add: pattern_defs)
  have n: "HOSTNAME_PATTERN_search ''core-sw1'' = None"
    by (simp add: pattern_defs)
  show ?thesis
    using parse_all_or_nothing
            [of "\<lparr>name = ''RFUL01AC02'', tags = [], platform = None, device_id = 7,
                  model = ''WS-C3850''\<rparr>"]
          parse_all_or_nothing
            [of "\<lparr>name = ''core-sw1'', tags = [], platform = None, device_id = 8,
                  model = ''WS-C3850''\<rparr>"]
    by (simp add: m n)
qed

text \<open>
  C6: \<open>parse_hostname\<close> returns for every device name and never raises. A name shorter
  than the ten fixed characters is rejected with the all-None record, as is the name
  "shortname"; and whenever the pattern matches, \<open>int\<close> succeeds on the floor group and
  on the index group, so the ValueError branch is never taken.
\<close>

theorem parse_hostname_total:
  "(\<exists>p. parse_hostname d = Inr p)
   \<and> (length (name d) < 10 \<longrightarrow> parse_hostname d = Inr (attach d no_props))
   \<and> (\<forall>g. HOSTNAME_PATTERN_search (name d) = Some g \<longrightarrow>
          (\<exists>fl ix. py_int (group_floor g) = Inr fl \<and> py_int (group_index g) = Inr ix))
   \<and> parse_hostname (d\<lparr>name := ''shortname''\<rparr>) = Inr (attach (d\<lparr>name := ''shortname''\<rparr>) no_props)"
proof (intro conjI allI impI)
  show "\<exists>p. parse_hostname d = Inr p"
  proof (cases "HOSTNAME_PATTERN_search (name d)")
    case None
    then show ?thesis by (simp add: parse_hostname_nomatch)
  next
    case (Some g)
    then show ?thesis using parse_hostname_match[OF Some] by blast
  qed
next
  assume "length (name d) < 10"
  then show "parse_hostname d = Inr (attach d no_props)"
    by (simp add: search_short parse_hostname_nomatch)
next
  fix g assume "HOSTNAME_PATTERN_search (name d) = Some g"
  then show "\<exists>fl ix. py_int (group_floor g) = Inr fl \<and> py_int (group_index g) = Inr ix"
    by (rule search_py_int)
next
  show "parse_hostname (d\<lparr>name := ''shortname''\<rparr>) = Inr (attach (d\<lparr>name := ''shortname''\<rparr>) no_props)"
    by (simp add: search_short parse_hostname_nomatch)
qed

theorem parse_hostname_total_witness:
  "length (name \<lparr>name = ''shortname'', tags = [], platform = None, device_id = 3, model = ''ISR4331''\<rparr>) < 10
   \<and> parse_hostname \<lparr>name = ''shortname'', tags = [], platform = None, device_id = 3, model = ''ISR4331''\<rparr>
       = Inr (attach \<lparr>name = ''shortname'', tags = [], platform = None, device_id = 3, model = ''ISR4331''\<rparr> no_props)
   \<and> HOSTNAME_PATTERN_search (name \<lparr>name = ''SNYC12DS01-STB'', tags = [], platform = None, device_id = 4, model = ''N9K''\<rparr>)
       = Some \<lparr>group_role = ''S'', group_site = ''NYC'', group_floor = ''12'',
                group_subrole = ''DS'', group_index = ''01'', group_status = Some ''STB''\<rparr>
   \<and> (\<exists>fl ix. py_int ''12'' = Inr fl \<and> py_int ''01'' = Inr ix)"
proof -
  have m: "HOSTNAME_PATTERN_search ''SNYC12DS01-STB'' =
             Some \<lparr>group_role = ''S'', group_site = ''NYC'', group_floor = ''12'',
                   group_subrole = ''DS'', group_index = ''01'', group_status = Some ''STB''\<rparr>"
    by (simp add: pattern_defs)
  show ?thesis
    using parse_hostname_total
            [of "\<lparr>name = ''shortname'', tags = [], platform = None, device_id = 3, model = ''ISR4331''\<rparr>"]
          parse_hostname_total
            [of "\<lparr>name = ''SNYC12DS01-STB'', tags = [], platform = None, device_id = 4, model = ''N9K''\<rparr>"]
    by (simp add: m)
qed

text \<open>
  C7: the name "RFUL01AC02-ACT-extra" matches the pattern, and its parsed record is
  role "router", site "FUL", floor 1, subrole "access-switch", index 2, status "active".
\<close>

theorem parse_hostname_example:
  "HOSTNAME_PATTERN_search ''RFUL01AC02-ACT-extra'' =
     Some \<lparr>group_role = ''R'', group_site = ''FUL'', group_floor = ''01'',
           group_subrole = ''AC'', group_index = ''02'', group_status = Some ''ACT''\<rparr>
   \<and> parse_hostname (d\<lparr>name := ''RFUL01AC02-ACT-extra''\<rparr>) =
       Inr (attach (d\<lparr>name := ''RFUL01AC02-ACT-extra''\<rparr>)
             \<lparr>role = Some ''router'', site = Some ''FUL'', floor = Some 1,
              subrole = Some ''access-switch'', index = Some 2, status = Some ''active''\<rparr>)"
proof -
  have m: "HOSTNAME_PATTERN_search ''RFUL01AC02-ACT-extra'' =
     Some \<lparr>group_role = ''R'', group_site = ''FUL'', group_floor = ''01'',
           group_subrole = ''AC'', group_index = ''02'', group_status = Some ''ACT''\<rparr>"
    by (simp add: pattern_defs)
  show ?thesis
    by (simp add: m parse_defs is_digit_def)
qed

text \<open>
  C9: for every name that matches, parsing succeeds, and a role or subrole code that is
  no key of its table is kept as it is in the parsed record. The status field goes
  through the same translation, which keeps any code that is no key of the status table.
\<close>

theorem unknown_code_kept:
  assumes "HOSTNAME_PATTERN_search (name d) = Some g"
  shows "\<exists>p. parse_hostname d = Inr p \<and>
           (map_of HOSTNAME_ROLE_MAP (group_role g) = None \<longrightarrow>
              role (parsed_props p) = Some (group_role g)) \<and>
           (map_of HOSTNAME_SUBROLE_MAP (group_subrole g) = None \<longrightarrow>
              subrole (parsed_props p) = Some (group_subrole g)) \<and>
           status (parsed_props p) = get_or_opt HOSTNAME_STATUS_MAP (group_status g) \<and>
           (\<forall>c. map_of HOSTNAME_STATUS_MAP c = None \<longrightarrow>
              get_or_opt HOSTNAME_STATUS_MAP (Some c) = Some c)"
  using parse_hostname_match[OF assms]
  by (auto simp: get_or_def get_or_opt_def)

theorem unknown_code_kept_witness:
  "\<exists>p. parse_hostname \<lparr>name = ''XFUL01ZZ02-OLD'', tags = [], platform = None, device_id = 5, model = ''EX4300''\<rparr> = Inr p \<and>
        map_of HOSTNAME_ROLE_MAP ''X'' = None \<and> role (parsed_props p) = Some ''X'' \<and>
        map_of HOSTNAME_SUBROLE_MAP ''ZZ'' = None \<and> subrole (parsed_props p) = Some ''ZZ'' \<and>
        status (parsed_props p) = Some ''legacy'' \<and>
        map_of HOSTNAME_STATUS_MAP ''RMA'' = None \<and>
        get_or_opt HOSTNAME_STATUS_MAP (Some ''RMA'') = Some ''RMA''"
proof -
  have m: "HOSTNAME_PATTERN_search (name \<lparr>name = ''XFUL01ZZ02-OLD'', tags = [], platform = None, device_id = 5, model = ''EX4300''\<rparr>) =
             Some \<lparr>group_role = ''X'', group_site = ''FUL'', group_floor = ''01'',
                   group_subrole = ''ZZ'', group_index = ''02'', group_status = Some ''OLD''\<rparr>"
    by (simp add: pattern_defs)
  have t: "map_of HOSTNAME_ROLE_MAP ''X'' = None" "map_of HOSTNAME_SUBROLE_MAP ''ZZ'' = None"
     "map_of HOSTNAME_STATUS_MAP ''RMA'' = None" "get_or_opt HOSTNAME_STATUS_MAP (Some ''OLD'') = Some ''legacy''"
    by (simp_all add: parse_defs)
  show ?thesis
    using unknown_code_kept[OF m] t
    by auto
qed

section \<open>Round trip on the codes\<close>

lemma reencode_raw:
  assumes "\<forall>l \<in> snd ` set tbl. length l \<noteq> length c" and "map_of tbl c = None"
  shows "reencode tbl (get_or tbl c) = c"
proof -
  have "c \<notin> fst ` set (map (\<lambda>(code, label). (label, code)) tbl)"
    using assms(1) by force
  then have "map_of (map (\<lambda>(code, label). (label, code)) tbl) c = None"
    by (simp add: map_of_eq_None_iff)
  then show ?thesis
    using assms(2) by (simp add: reencode_def get_or_def)
qed

lemma reencode_role:
  assumes "length c = 1"
  shows "reencode HOSTNAME_ROLE_MAP (get_or HOSTNAME_ROLE_MAP c) = c"
proof (cases "map_of HOSTNAME_ROLE_MAP c")
  case None
  have "\<forall>l \<in> snd ` set HOSTNAME_ROLE_MAP. length l \<noteq> length c"
    using assms by (simp add: HOSTNAME_ROLE_MAP_def)
  then show ?thesis using None by (rule reencode_raw)
next
  case (Some v)
  then have "(c, v) \<in> set HOSTNAME_ROLE_MAP" by (rule map_of_SomeD)
  then have "c \<in> {''O'', ''R'', ''S'', ''V'', ''W''}"
    by (auto simp: HOSTNAME_ROLE_MAP_def)
  then show ?thesis
    by (elim insertE emptyE) (simp_all add: reencode_def get_or_def HOSTNAME_ROLE_MAP_def)
qed

lemma reencode_subrole:
  assumes "length c = 2"
  shows "reencode HOSTNAME_SUBROLE_MAP (get_or HOSTNAME_SUBROLE_MAP c) = c"
proof (cases "map_of HOSTNAME_SUBROLE_MAP c")
  case None
  have "\<forall>l \<in> snd ` set HOSTNAME_SUBROLE_MAP. length l \<noteq> length c"
    using assms by (simp add: HOSTNAME_SUBROLE_MAP_def)
  then show ?thesis using None by (rule reencode_raw)
next
  case (Some v)
  then have "(c, v) \<in> set HOSTNAME_SUBROLE_MAP" by (rule map_of_SomeD)
  then have "c \<in> {''AC'', ''CR'', ''DS'', ''ER'', ''LB'', ''SS'', ''TS'', ''VG'', ''WA'', ''WC'', ''WO''}"
    by (auto simp: HOSTNAME_SUBROLE_MAP_def)
  then show ?thesis
    by (elim insertE emptyE) (simp_all add: reencode_def get_or_def HOSTNAME_SUBROLE_MAP_def)
qed

lemma reencode_status:
  assumes "st \<in> {None, Some ''ACT'', Some ''STB'', Some ''OLD''}"
  shows "map_option (reencode HOSTNAME_STATUS_MAP) (get_or_opt HOSTNAME_STATUS_MAP st) = st"
  using assms
  by (elim insertE emptyE) (simp_all add: reencode_def get_or_def get_or_opt_def HOSTNAME_STATUS_MAP_def)

text \<open>
  C5: for every name that matches the pattern, re-encoding the parsed role, subrole and
  status through the inverted lookup tables gives back the role, subrole and status
  groups of the name. The text after the status takes no part.
\<close>

theorem code_round_trip:
  assumes "HOSTNAME_PATTERN_search (name d) = Some g"
  shows "\<exists>p. parse_hostname d = Inr p \<and>
           map_option (reencode HOSTNAME_ROLE_MAP) (role (parsed_props p)) = Some (group_role g) \<and>
           map_option (reencode HOSTNAME_SUBROLE_MAP) (subrole (parsed_props p)) = Some (group_subrole g) \<and>
           map_option (reencode HOSTNAME_STATUS_MAP) (status (parsed_props p)) = group_status g"
proof -
  from parse_hostname_match[OF assms] obtain fl ix where
    p: "parse_hostname d = Inr (attach d
             \<lparr>role = Some (get_or HOSTNAME_ROLE_MAP (group_role g)),
              site = Some (group_site g),
              floor = Some fl,
              subrole = Some (get_or HOSTNAME_SUBROLE_MAP (group_subrole g)),
              index = Some ix,
              status = get_or_opt HOSTNAME_STATUS_MAP (group_status g)\<rparr>)"
    by blast
  have r: "reencode HOSTNAME_ROLE_MAP (get_or HOSTNAME_ROLE_MAP (group_role g)) = group_role g"
    using search_groups(1)[OF assms] by (rule reencode_role)
  have s: "reencode HOSTNAME_SUBROLE_MAP (get_or HOSTNAME_SUBROLE_MAP (group_subrole g)) = group_subrole g"
    using search_groups(7)[OF assms] by (rule reencode_subrole)
  have t: "map_option (reencode HOSTNAME_STATUS_MAP) (get_or_opt HOSTNAME_STATUS_MAP (group_status g))
             = group_status g"
    using search_groups(11)[OF assms] by (rule reencode_status)
  show ?thesis
    unfolding p using r s t by simp
qed

theorem code_round_trip_witness:
  "\<exists>p. parse_hostname \<lparr>name = ''SLON03QQ11STB-rack4'', tags = [''standby''], platform = None,
                        device_id = 21, model = ''C9300''\<rparr> = Inr p \<and>
       role (parsed_props p) = Some ''switch'' \<and>
       subrole (parsed_props p) = Some ''QQ'' \<and>
       status (parsed_props p) = Some ''standby'' \<and>
       map_option (reencode HOSTNAME_ROLE_MAP) (role (parsed_props p)) = Some ''S'' \<and>
       map_option (reencode HOSTNAME_SUBROLE_MAP) (subrole (parsed_props p)) = Some ''QQ'' \<and>
       map_option (reencode HOSTNAME_STATUS_MAP) (status (parsed_props p)) = Some ''STB''"
proof -
  have m: "HOSTNAME_PATTERN_search
             (name \<lparr>name = ''SLON03QQ11STB-rack4'', tags = [''standby''], platform = None,
                    device_id = 21, model = ''C9300''\<rparr>) =
             Some \<lparr>group_role = ''S'', group_site = ''LON'', group_floor = ''03'',
                   group_subrole = ''QQ'', group_index = ''11'', group_status = Some ''STB''\<rparr>"
    by (simp add: pattern_defs)
  have e: "reencode HOSTNAME_ROLE_MAP ''switch'' = ''S''"
          "reencode HOSTNAME_SUBROLE_MAP ''QQ'' = ''QQ''"
          "reencode HOSTNAME_STATUS_MAP ''standby'' = ''STB''"
    by (simp_all add: reencode_def parse_defs)
  have q: "parse_hostname \<lparr>name = ''SLON03QQ11STB-rack4'', tags = [''standby''], platform = None,
                        device_id = 21, model = ''C9300''\<rparr> =
           Inr (attach \<lparr>name = ''SLON03QQ11STB-rack4'', tags = [''standby''], platform = None,
                        device_id = 21, model = ''C9300''\<rparr>
                 \<lparr>role = Some ''switch'', site = Some ''LON'', floor = Some 3,
                  subrole = Some ''QQ'', index = Some 11, status = Some ''standby''\<rparr>)"
    using m by (simp add: parse_defs is_digit_def)
  show ?thesis
    using code_round_trip[OF m] e unfolding q by simp
qed

section \<open>Facts about get\_device\_tags\<close>

lemmas tag_defs =
  parsed_tags_def props_values_def str_prop_def int_prop_def in_tags_def NETBOX_TAGS_def
  primary_secondary_def dual_purpose_def get_device_tags_def

lemma NETBOX_TAGS_length:
  "t \<in> set NETBOX_TAGS \<Longrightarrow> 6 \<le> length t"
  by (auto simp: NETBOX_TAGS_def)

lemma get_or_cases:
  "get_or tbl c = c \<or> get_or tbl c \<in> snd ` set tbl"
  by (auto simp: get_or_def split: option.splits dest!: map_of_SomeD intro: rev_image_eqI)

lemma parsed_tags_set:
  "set (parsed_tags d) =
     {s. s \<in> set NETBOX_TAGS \<and>
         (role (parsed_props d) = Some s \<or> site (parsed_props d) = Some s \<or>
          subrole (parsed_props d) = Some s \<or> status (parsed_props d) = Some s)}"
  by (auto simp: parsed_tags_def props_values_def str_prop_def int_prop_def in_tags_def
           split: option.splits if_splits)

lemma short_not_tag:
  "length c < 6 \<Longrightarrow> c \<notin> set NETBOX_TAGS"
  using NETBOX_TAGS_length[of c] by auto

lemma label_in_tags:
  assumes "get_or tbl c \<in> set NETBOX_TAGS" and "length c < 6"
  shows "get_or tbl c \<in> snd ` set tbl"
  using get_or_cases[of tbl c] assms short_not_tag[of c] by auto

lemma str_contains_iff:
  "str_contains needle hay \<longleftrightarrow> (\<exists>xs ys. hay = xs @ needle @ ys)"
proof (induction hay)
  case Nil
  then show ?case by auto
next
  case (Cons c cs)
  have "take (length needle) (c # cs) = needle \<longleftrightarrow> (\<exists>ys. c # cs = needle @ ys)"
    by (metis append_eq_conv_conj append_take_drop_id)
  moreover have "(\<exists>xs ys. c # cs = xs @ needle @ ys) \<longleftrightarrow>
                 (\<exists>ys. c # cs = needle @ ys) \<or> (\<exists>xs ys. cs = xs @ needle @ ys)"
  proof
    assume "\<exists>xs ys. c # cs = xs @ needle @ ys"
    then obtain xs ys where h: "c # cs = xs @ needle @ ys" by blast
    show "(\<exists>ys. c # cs = needle @ ys) \<or> (\<exists>xs ys. cs = xs @ needle @ ys)"
    proof (cases xs)
      case Nil
      with h show ?thesis by auto
    next
      case (Cons x xs')
      with h have "cs = xs' @ needle @ ys" by simp
      then show ?thesis by blast
    qed
  next
    assume "(\<exists>ys. c # cs = needle @ ys) \<or> (\<exists>xs ys. cs = xs @ needle @ ys)"
    then show "\<exists>xs ys. c # cs = xs @ needle @ ys"
    proof
      assume "\<exists>ys. c # cs = needle @ ys"
      then obtain ys where "c # cs = [] @ needle @ ys" by auto
      then show ?thesis by blast
    next
      assume "\<exists>xs ys. cs = xs @ needle @ ys"
      then obtain xs ys where "c # cs = (c # xs) @ needle @ ys" by auto
      then show ?thesis by blast
    qed
  qed
  ultimately show ?case using Cons.IH by simp
qed

text \<open>
  C2: for every device and the record parsed from its name, the tags collected by the
  first loop are long-form labels of the lookup tables that are in the allow-list
  \<open>NETBOX_TAGS\<close>. A role or subrole code that its table does not translate stays in
  the record as the raw code and is not among the collected tags, and neither is the
  site code.
\<close>

theorem allow_list_filter:
  assumes "parse_hostname d = Inr p"
  shows "set (parsed_tags p) \<subseteq> set NETBOX_TAGS \<inter> set long_form_labels \<and>
         (\<forall>g. HOSTNAME_PATTERN_search (name d) = Some g \<longrightarrow>
            (map_of HOSTNAME_ROLE_MAP (group_role g) = None \<longrightarrow>
               role (parsed_props p) = Some (group_role g) \<and> group_role g \<notin> set (parsed_tags p)) \<and>
            (map_of HOSTNAME_SUBROLE_MAP (group_subrole g) = None \<longrightarrow>
               subrole (parsed_props p) = Some (group_subrole g) \<and>
               group_subrole g \<notin> set (parsed_tags p)) \<and>
            site (parsed_props p) = Some (group_site g) \<and> group_site g \<notin> set (parsed_tags p))"
proof (cases "HOSTNAME_PATTERN_search (name d)")
  case None
  then have "parsed_props p = no_props"
    using assms parse_hostname_nomatch[OF None] by auto
  then have "set (parsed_tags p) = {}"
    by (simp add: parsed_tags_set no_props_def)
  then show ?thesis using None by simp
next
  case (Some g)
  from parse_hostname_match[OF Some] assms obtain fl ix where
    pp: "parsed_props p =
             \<lparr>role = Some (get_or HOSTNAME_ROLE_MAP (group_role g)),
              site = Some (group_site g),
              floor = Some fl,
              subrole = Some (get_or HOSTNAME_SUBROLE_MAP (group_subrole g)),
              index = Some ix,
              status = get_or_opt HOSTNAME_STATUS_MAP (group_status g)\<rparr>"
    by auto
  note len = search_groups(1,3,7)[OF Some]
  have st: "group_status g = None \<or> (\<exists>c. group_status g = Some c \<and> length c = 3)"
    using search_groups(11)[OF Some] by auto
  have sub: "set (parsed_tags p) \<subseteq> set NETBOX_TAGS \<inter> set long_form_labels"
  proof
    fix s assume "s \<in> set (parsed_tags p)"
    then have tag: "s \<in> set NETBOX_TAGS"
      and src: "get_or HOSTNAME_ROLE_MAP (group_role g) = s \<or> group_site g = s \<or>
                get_or HOSTNAME_SUBROLE_MAP (group_subrole g) = s \<or>
                get_or_opt HOSTNAME_STATUS_MAP (group_status g) = Some s"
      by (auto simp: parsed_tags_set pp)
    from src have "s \<in> set long_form_labels"
    proof (elim disjE)
      assume a: "get_or HOSTNAME_ROLE_MAP (group_role g) = s"
      have "get_or HOSTNAME_ROLE_MAP (group_role g) \<in> snd ` set HOSTNAME_ROLE_MAP"
        using tag len(1) by (intro label_in_tags) (simp_all add: a)
      then show ?thesis by (simp add: long_form_labels_def a)
    next
      assume "group_site g = s"
      then have False using tag len(2) short_not_tag[of s] by simp
      then show ?thesis ..
    next
      assume a: "get_or HOSTNAME_SUBROLE_MAP (group_subrole g) = s"
      have "get_or HOSTNAME_SUBROLE_MAP (group_subrole g) \<in> snd ` set HOSTNAME_SUBROLE_MAP"
        using tag len(3) by (intro label_in_tags) (simp_all add: a)
      then show ?thesis by (simp add: long_form_labels_def a)
    next
      assume a: "get_or_opt HOSTNAME_STATUS_MAP (group_status g) = Some s"
      then obtain c where c: "group_status g = Some c" "length c = 3"
        and b: "get_or HOSTNAME_STATUS_MAP c = s"
        using st by (auto simp: get_or_opt_def)
      have "get_or HOSTNAME_STATUS_MAP c \<in> snd ` set HOSTNAME_STATUS_MAP"
        using tag c(2) by (intro label_in_tags) (simp_all add: b)
      then show ?thesis by (simp add: long_form_labels_def b)
    qed
    with tag show "s \<in> set NETBOX_TAGS \<inter> set long_form_labels" by simp
  qed
  have raw: "group_role g \<notin> set (parsed_tags p)" "group_subrole g \<notin> set (parsed_tags p)"
            "group_site g \<notin> set (parsed_tags p)"
    using len short_not_tag[of "group_role g"] short_not_tag[of "group_subrole g"]
          short_not_tag[of "group_site g"]
    by (simp_all add: parsed_tags_set)
  show ?thesis
    using sub raw Some by (simp add: pp get_or_def)
qed

theorem allow_list_filter_witness:
  "\<exists>p. parse_hostname \<lparr>name = ''XFUL01ZZ02-ACT'', tags = [], platform = None, device_id = 9,
                        model = ''QFX5100''\<rparr> = Inr p \<and>
       parsed_tags p = [''active''] \<and>
       set (parsed_tags p) \<subseteq> set NETBOX_TAGS \<inter> set long_form_labels \<and>
       map_of HOSTNAME_ROLE_MAP ''X'' = None \<and> role (parsed_props p) = Some ''X'' \<and>
       ''X'' \<notin> set (parsed_tags p) \<and>
       map_of HOSTNAME_SUBROLE_MAP ''ZZ'' = None \<and> subrole (parsed_props p) = Some ''ZZ'' \<and>
       ''ZZ'' \<notin> set (parsed_tags p)"
proof -
  have m: "HOSTNAME_PATTERN_search
             (name \<lparr>name = ''XFUL01ZZ02-ACT'', tags = [], platform = None, device_id = 9,
                    model = ''QFX5100''\<rparr>) =
             Some \<lparr>group_role = ''X'', group_site = ''FUL'', group_floor = ''01'',
                   group_subrole = ''ZZ'', group_index = ''02'', group_status = Some ''ACT''\<rparr>"
    by (simp add: pattern_defs)
  have q: "parse_hostname \<lparr>name = ''XFUL01ZZ02-ACT'', tags = [], platform = None, device_id = 9,
                        model = ''QFX5100''\<rparr> =
           Inr (attach \<lparr>name = ''XFUL01ZZ02-ACT'', tags = [], platform = None, device_id = 9,
                        model = ''QFX5100''\<rparr>
                 \<lparr>role = Some ''X'', site = Some ''FUL'', floor = Some 1,
                  subrole = Some ''ZZ'', index = Some 2, status = Some ''active''\<rparr>)"
    using m by (simp add: parse_defs is_digit_def)
  have t: "map_of HOSTNAME_ROLE_MAP ''X'' = None" "map_of HOSTNAME_SUBROLE_MAP ''ZZ'' = None"
    by (simp_all add: parse_defs)
  have e: "parsed_tags (attach \<lparr>name = ''XFUL01ZZ02-ACT'', tags = [], platform = None, device_id = 9,
                        model = ''QFX5100''\<rparr>
                 \<lparr>role = Some ''X'', site = Some ''FUL'', floor = Some 1,
                  subrole = Some ''ZZ'', index = Some 2, status = Some ''active''\<rparr>) = [''active'']"
    by (simp add: tag_defs)
  let ?p = "attach \<lparr>name = ''XFUL01ZZ02-ACT'', tags = [], platform = None, device_id = 9,
                        model = ''QFX5100''\<rparr>
                 \<lparr>role = Some ''X'', site = Some ''FUL'', floor = Some 1,
                  subrole = Some ''ZZ'', index = Some 2, status = Some ''active''\<rparr>"
  note f = allow_list_filter[OF q]
  from f have a: "set (parsed_tags ?p) \<subseteq> set NETBOX_TAGS \<inter> set long_form_labels"
    by (rule conjunct1)
  from f m t have b: "''X'' \<notin> set (parsed_tags ?p)" "''ZZ'' \<notin> set (parsed_tags ?p)"
    by fastforce+
  have c: "role (parsed_props ?p) = Some ''X''" "subrole (parsed_props ?p) = Some ''ZZ''"
    by simp_all
  show ?thesis
    unfolding q using a b c e t by blast
qed

text \<open>
  C8: when the tags of the first loop contain "distribution-switch" or "core-router",
  the result is those tags, plus "primary" exactly when the parsed index is 1, plus
  "secondary" exactly when it is 2, plus "access-switch" exactly when "core-router" is
  among them and the model contains "3850" or "3750". In particular a core router with
  index 1 and a model containing "3850" has "core-router", "primary" and "access-switch".
\<close>

theorem tag_steps_2_3:
  "(''distribution-switch'' \<in> set (parsed_tags d) \<or> ''core-router'' \<in> set (parsed_tags d) \<longrightarrow>
      get_device_tags d =
        set (parsed_tags d)
        \<union> (if index (parsed_props d) = Some 1 then {''primary''} else {})
        \<union> (if index (parsed_props d) = Some 2 then {''secondary''} else {})
        \<union> (if ''core-router'' \<in> set (parsed_tags d) \<and>
               (str_contains ''3850'' (model d) \<or> str_contains ''3750'' (model d))
           then {''access-switch''} else {}))
   \<and> (subrole (parsed_props d) = Some ''core-router'' \<and> index (parsed_props d) = Some 1 \<and>
      str_contains ''3850'' (model d) \<longrightarrow>
      {''core-router'', ''primary'', ''access-switch''} \<subseteq> get_device_tags d)"
proof (intro conjI impI)
  assume "''distribution-switch'' \<in> set (parsed_tags d) \<or> ''core-router'' \<in> set (parsed_tags d)"
  then show "get_device_tags d =
        set (parsed_tags d)
        \<union> (if index (parsed_props d) = Some 1 then {''primary''} else {})
        \<union> (if index (parsed_props d) = Some 2 then {''secondary''} else {})
        \<union> (if ''core-router'' \<in> set (parsed_tags d) \<and>
               (str_contains ''3850'' (model d) \<or> str_contains ''3750'' (model d))
           then {''access-switch''} else {})"
    by (auto simp: get_device_tags_def dual_purpose_def primary_secondary_def)
next
  assume a: "subrole (parsed_props d) = Some ''core-router'' \<and> index (parsed_props d) = Some 1 \<and>
      str_contains ''3850'' (model d)"
  then have "''core-router'' \<in> set (parsed_tags d)"
    by (simp add: parsed_tags_set NETBOX_TAGS_def)
  then show "{''core-router'', ''primary'', ''access-switch''} \<subseteq> get_device_tags d"
    using a by (simp add: get_device_tags_def dual_purpose_def primary_secondary_def)
qed

theorem tag_steps_2_3_witness:
  "''core-router'' \<in> set (parsed_tags
       \<lparr>name = ''SFUL01CR01-ACT'', tags = [''floor-1'', ''active''], platform = None,
        device_id = 12, model = ''WS-C3850-48P'',
        parsed_props = \<lparr>role = Some ''switch'', site = Some ''FUL'', floor = Some 1,
                         subrole = Some ''core-router'', index = Some 1,
                         status = Some ''active''\<rparr>\<rparr>)
   \<and> str_contains ''3850'' ''WS-C3850-48P''
   \<and> get_device_tags
       \<lparr>name = ''SFUL01CR01-ACT'', tags = [''floor-1'', ''active''], platform = None,
        device_id = 12, model = ''WS-C3850-48P'',
        parsed_props = \<lparr>role = Some ''switch'', site = Some ''FUL'', floor = Some 1,
                         subrole = Some ''core-router'', index = Some 1,
                         status = Some ''active''\<rparr>\<rparr>
     = {''core-router'', ''active'', ''primary'', ''access-switch''}"
proof -
  let ?d = "\<lparr>name = ''SFUL01CR01-ACT'', tags = [''floor-1'', ''active''], platform = None,
        device_id = 12, model = ''WS-C3850-48P'',
        parsed_props = \<lparr>role = Some ''switch'', site = Some ''FUL'', floor = Some 1,
                         subrole = Some ''core-router'', index = Some 1,
                         status = Some ''active''\<rparr>\<rparr>"
  have s1: "parsed_tags ?d = [''core-router'', ''active'']"
    by (simp add: parsed_tags_def props_values_def str_prop_def int_prop_def in_tags_def
                  NETBOX_TAGS_def)
  have s2: "str_contains ''3850'' ''WS-C3850-48P''"
    by simp
  have "get_device_tags ?d =
          set [''core-router'', ''active''] \<union> {''primary''} \<union> {} \<union> {''access-switch''}"
    using tag_steps_2_3[of ?d] s2 by (simp add: s1)
  then show ?thesis
    using s2 by (simp add: s1 insert_commute)
qed

section \<open>Facts about update\_device\_tags\<close>

text \<open>
  C1: the tags submitted by \<open>update_device_tags\<close> are the derived tags minus the
  current tags of the device. Adding them to the current tags gives the union of the
  current and the derived tags, so every current tag is kept, whether derived or not.
\<close>

theorem additive_tag_policy:
  "tags_to_add d = get_device_tags d - set (tags d)
   \<and> apply_update (set (tags d)) (update_device_tags d) = set (tags d) \<union> get_device_tags d
   \<and> set (tags d) \<subseteq> apply_update (set (tags d)) (update_device_tags d)"
  by (auto simp: tags_to_add_def apply_update_def update_device_tags_def Let_def)

theorem additive_tag_policy_witness:
  "tags_to_add
       \<lparr>name = ''SFUL01CR01-ACT'', tags = [''floor-1'', ''active''], platform = None,
        device_id = 12, model = ''WS-C3850-48P'',
        parsed_props = \<lparr>role = Some ''switch'', site = Some ''FUL'', floor = Some 1,
                         subrole = Some ''core-router'', index = Some 1,
                         status = Some ''active''\<rparr>\<rparr>
     = {''core-router'', ''primary'', ''access-switch''}
   \<and> apply_update {''floor-1'', ''active''} (update_device_tags
       \<lparr>name = ''SFUL01CR01-ACT'', tags = [''floor-1'', ''active''], platform = None,
        device_id = 12, model = ''WS-C3850-48P'',
        parsed_props = \<lparr>role = Some ''switch'', site = Some ''FUL'', floor = Some 1,
                         subrole = Some ''core-router'', index = Some 1,
                         status = Some ''active''\<rparr>\<rparr>)
     = {''floor-1'', ''active'', ''core-router'', ''primary'', ''access-switch''}"
proof -
  let ?d = "\<lparr>name = ''SFUL01CR01-ACT'', tags = [''floor-1'', ''active''], platform = None,
        device_id = 12, model = ''WS-C3850-48P'',
        parsed_props = \<lparr>role = Some ''switch'', site = Some ''FUL'', floor = Some 1,
                         subrole = Some ''core-router'', index = Some 1,
                         status = Some ''active''\<rparr>\<rparr>"
  have s1: "parsed_tags ?d = [''core-router'', ''active'']"
    by (simp add: parsed_tags_def props_values_def str_prop_def int_prop_def in_tags_def
                  NETBOX_TAGS_def)
  have g: "get_device_tags ?d = {''core-router'', ''active'', ''primary'', ''access-switch''}"
    by (simp add: get_device_tags_def dual_purpose_def primary_secondary_def s1)
  have t: "set (tags ?d) = {''floor-1'', ''active''}"
    by simp
  have a: "tags_to_add ?d = {''core-router'', ''primary'', ''access-switch''}"
    using additive_tag_policy[of ?d] unfolding g t by auto
  have b: "apply_update {''floor-1'', ''active''} (update_device_tags ?d)
             = {''floor-1'', ''active'', ''core-router'', ''primary'', ''access-switch''}"
    using additive_tag_policy[of ?d] unfolding g t by auto
  show ?thesis
    using a b by (rule conjI)
qed

section \<open>Facts about verify\_platform\<close>

text \<open>
  C10: for a device whose platform is unset and whose list of tags is empty,
  \<open>verify_platform\<close> raises IndexError at \<open>device["tags"][0]\<close>, whatever the platforms.
\<close>

theorem verify_platform_empty_tags:
  assumes "platform d = None" and "tags d = []"
  shows "verify_platform platforms d = Inl IndexError"
  using assms by (simp add: verify_platform_def)

theorem verify_platform_empty_tags_witness:
  "verify_platform (Some [\<lparr>platform_id = 1, slug = ''ios''\<rparr>])
     \<lparr>name = ''RFUL01AC02'', tags = [], platform = None, device_id = 7, model = ''WS-C3850''\<rparr>
   = Inl IndexError"
  using verify_platform_empty_tags
          [of "\<lparr>name = ''RFUL01AC02'', tags = [], platform = None, device_id = 7,
                model = ''WS-C3850''\<rparr>" "Some [\<lparr>platform_id = 1, slug = ''ios''\<rparr>]"]
  by simp

section \<open>Facts about get\_stp\_root\<close>

lemma last_with_index_Nil [simp]: "last_with_index [] i = None"
  by (simp add: last_with_index_def)

lemma last_with_index_snoc:
  "last_with_index (xs @ [x]) i =
     (if index (parsed_props x) = Some i then Some x else last_with_index xs i)"
  by (simp add: last_with_index_def)

lemma last_with_index_None:
  "last_with_index xs i = None \<longleftrightarrow> (\<forall>x \<in> set xs. index (parsed_props x) \<noteq> Some i)"
  by (simp add: last_with_index_def filter_empty_conv)

lemma scan_step_fields:
  "scan_step \<lparr>primary = a, secondary = b\<rparr> x =
     \<lparr>primary = (if index (parsed_props x) = Some 1 then Some x else a),
      secondary = (if index (parsed_props x) = Some 2 then Some x else b)\<rparr>"
  by (simp add: scan_step_def)

lemma foldl_scan_step:
  "foldl scan_step r xs =
     \<lparr>primary = (case last_with_index xs 1 of None \<Rightarrow> primary r | Some x \<Rightarrow> Some x),
      secondary = (case last_with_index xs 2 of None \<Rightarrow> secondary r | Some x \<Rightarrow> Some x)\<rparr>"
proof (induction xs rule: rev_induct)
  case Nil
  show ?case by simp
next
  case (snoc x xs)
  have "foldl scan_step r (xs @ [x]) = scan_step (foldl scan_step r xs) x"
    by simp
  also have "\<dots> = scan_step
     \<lparr>primary = (case last_with_index xs 1 of None \<Rightarrow> primary r | Some x \<Rightarrow> Some x),
      secondary = (case last_with_index xs 2 of None \<Rightarrow> secondary r | Some x \<Rightarrow> Some x)\<rparr> x"
    by (simp only: snoc.IH)
  finally show ?case
    by (simp add: scan_step_fields last_with_index_snoc)
qed

text \<open>
  C3: \<open>get_stp_root\<close> is the selection of the specification: among the distribution
  switches when there are any, and among the core routers only otherwise, primary is the
  last device with parsed index 1 and secondary the last with parsed index 2. A slot is
  None exactly when the chosen group has no device of that index, and both are None for
  the empty list.
\<close>

theorem get_stp_root_selection:
  "get_stp_root devices = selectStpRoots devices
   \<and> (primary (get_stp_root devices) = None \<longleftrightarrow>
        (\<forall>x \<in> set (chosen_group devices). index (parsed_props x) \<noteq> Some 1))
   \<and> (secondary (get_stp_root devices) = None \<longleftrightarrow>
        (\<forall>x \<in> set (chosen_group devices). index (parsed_props x) \<noteq> Some 2))
   \<and> get_stp_root [] = \<lparr>primary = None, secondary = None\<rparr>"
proof -
  have eq: "get_stp_root ds = selectStpRoots ds" for ds
    by (simp add: get_stp_root_def selectStpRoots_def chosen_group_def
                  get_devices_with_subrole_def foldl_scan_step Let_def
             split: option.splits)
  have e: "get_stp_root [] = \<lparr>primary = None, secondary = None\<rparr>"
    by (simp add: get_stp_root_def get_devices_with_subrole_def)
  show ?thesis
    using e by (simp add: eq selectStpRoots_def last_with_index_None)
qed

theorem get_stp_root_selection_witness:
  "get_stp_root
      [\<lparr>name = ''SFUL01DS01'', tags = [], platform = None, device_id = 31, model = ''N9K-C9336'',
        parsed_props = \<lparr>role = Some ''switch'', site = Some ''FUL'', floor = Some 1,
                         subrole = Some ''distribution-switch'', index = Some 1, status = None\<rparr>\<rparr>,
       \<lparr>name = ''SFUL01DS01-B'', tags = [], platform = None, device_id = 32, model = ''N9K-C9336'',
        parsed_props = \<lparr>role = Some ''switch'', site = Some ''FUL'', floor = Some 1,
                         subrole = Some ''distribution-switch'', index = Some 1, status = None\<rparr>\<rparr>,
       \<lparr>name = ''SFUL01CR02'', tags = [], platform = None, device_id = 33, model = ''N9K-C9336'',
        parsed_props = \<lparr>role = Some ''switch'', site = Some ''FUL'', floor = Some 1,
                         subrole = Some ''core-router'', index = Some 2, status = None\<rparr>\<rparr>]
     = \<lparr>primary = Some
         \<lparr>name = ''SFUL01DS01-B'', tags = [], platform = None, device_id = 32, model = ''N9K-C9336'',
        parsed_props = \<lparr>role = Some ''switch'', site = Some ''FUL'', floor = Some 1,
                         subrole = Some ''distribution-switch'', index = Some 1, status = None\<rparr>\<rparr>,
        secondary = None\<rparr>
   \<and> get_stp_root
      [\<lparr>name = ''SFUL01CR02'', tags = [], platform = None, device_id = 33, model = ''N9K-C9336'',
        parsed_props = \<lparr>role = Some ''switch'', site = Some ''FUL'', floor = Some 1,
                         subrole = Some ''core-router'', index = Some 2, status = None\<rparr>\<rparr>]
     = \<lparr>primary = None,
        secondary = Some
         \<lparr>name = ''SFUL01CR02'', tags = [], platform = None, device_id = 33, model = ''N9K-C9336'',
        parsed_props = \<lparr>role = Some ''switch'', site = Some ''FUL'', floor = Some 1,
                         subrole = Some ''core-router'', index = Some 2, status = None\<rparr>\<rparr>\<rparr>"
proof -
  let ?a = "\<lparr>name = ''SFUL01DS01'', tags = [], platform = None, device_id = 31, model = ''N9K-C9336'',
        parsed_props = \<lparr>role = Some ''switch'', site = Some ''FUL'', floor = Some 1,
                         subrole = Some ''distribution-switch'', index = Some 1, status = None\<rparr>\<rparr>"
  let ?b = "\<lparr>name = ''SFUL01DS01-B'', tags = [], platform = None, device_id = 32, model = ''N9K-C9336'',
        parsed_props = \<lparr>role = Some ''switch'', site = Some ''FUL'', floor = Some 1,
                         subrole = Some ''distribution-switch'', index = Some 1, status = None\<rparr>\<rparr>"
  let ?c = "\<lparr>name = ''SFUL01CR02'', tags = [], platform = None, device_id = 33, model = ''N9K-C9336'',
        parsed_props = \<lparr>role = Some ''switch'', site = Some ''FUL'', floor = Some 1,
                         subrole = Some ''core-router'', index = Some 2, status = None\<rparr>\<rparr>"
  have g1: "chosen_group [?a, ?b, ?c] = [?a, ?b]"
    by (simp add: chosen_group_def)
  have g2: "chosen_group [?c] = [?c]"
    by (simp add: chosen_group_def)
  have "get_stp_root [?a, ?b, ?c] = \<lparr>primary = Some ?b, secondary = None\<rparr>"
    using get_stp_root_selection[of "[?a, ?b, ?c]"]
    by (simp add: selectStpRoots_def g1 last_with_index_def)
  moreover have "get_stp_root [?c] = \<lparr>primary = None, secondary = Some ?c\<rparr>"
    using get_stp_root_selection[of "[?c]"]
    by (simp add: selectStpRoots_def g2 last_with_index_def)
  ultimately show ?thesis by (rule conjI)
qed

end
